theory Spec2Isabelle
  imports Main "HOL-Library.Sublist" "HOL-Library.Word"
begin

unbundle bit_operations_syntax

section \<open>Package driver: registry lookup and the audit result accumulator\<close>

subsection \<open>Errors\<close>

text \<open>
  A Go \<^verbatim>\<open>error\<close> is an interface value; what a caller can test is its dynamic type and
  its text. \<open>ErrorString\<close> stands for the values built by \<^verbatim>\<open>errors.New\<close> and
  \<^verbatim>\<open>fmt.Errorf\<close>, \<open>ErrDriverNotSupported\<close> for the struct type of that name declared
  in the driver package, and \<open>SQL_STMT_CONFLICT_ERROR\<close> for the package variable the
  inspector returns when a batch mixes DDL and DML.
\<close>

datatype error =
    ErrorString string
  | ErrDriverNotSupported string
  | SQL_STMT_CONFLICT_ERROR

text \<open>The method \<^verbatim>\<open>(*ErrDriverNotSupported).Error\<close>, as a function of the
  field \<^verbatim>\<open>driverTyp\<close>.\<close>

definition ErrDriverNotSupported_Error :: "string \<Rightarrow> string" where
  "ErrDriverNotSupported_Error driverTyp =
     ''driver type '' @ driverTyp @ '' is not supported''"

subsection \<open>The driver registry\<close>

record Instance =
  DbType :: string

text \<open>
  A handler builds a driver from a logger, an instance and a schema name, or fails.
  The registry \<^verbatim>\<open>drivers\<close> is a Go map from the driver name to its handler; the
  read lock held by \<^verbatim>\<open>NewDriver\<close> does not change what it returns.
\<close>

type_synonym ('l, 'd) handler = "'l \<Rightarrow> Instance \<Rightarrow> string \<Rightarrow> error + 'd"

definition NewDriver ::
  "(string \<rightharpoonup> ('l, 'd) handler) \<Rightarrow> 'l \<Rightarrow> Instance \<Rightarrow> string \<Rightarrow> error + 'd" where
  "NewDriver drivers log inst schema =
     (case drivers (DbType inst) of
        None \<Rightarrow> Inl (ErrorString (''driver type '' @ DbType inst @ '' is not supported''))
      | Some d \<Rightarrow> d log inst schema)"

subsection \<open>Rule levels\<close>

text \<open>
  The four level names and the table \<^verbatim>\<open>RuleLevelMap\<close> belong to package
  \<^verbatim>\<open>model\<close>, which is not part of the sources at hand; they are parameters of the
  model. Indexing a Go map with a key it does not hold gives the zero value.
\<close>

record RuleLevels =
  RuleLevelNormal :: string
  RuleLevelNotice :: string
  RuleLevelWarn :: string
  RuleLevelError :: string
  RuleLevelMap :: "string \<rightharpoonup> int"

definition level_rank :: "RuleLevels \<Rightarrow> string \<Rightarrow> int" where
  "level_rank M l = (case RuleLevelMap M l of None \<Rightarrow> 0 | Some n \<Rightarrow> n)"

subsection \<open>The accumulator\<close>

record auditResult =
  level :: string
  message :: string

text \<open>\<^verbatim>\<open>AuditResult\<close> has the single field \<^verbatim>\<open>results\<close>, a slice of findings.\<close>

type_synonym AuditResult = "auditResult list"

definition NewInspectResults :: AuditResult where
  "NewInspectResults = []"

text \<open>\<^verbatim>\<open>Level\<close>: the loop keeps the running level and replaces it by a finding's
  level when that one ranks strictly higher.\<close>

fun Level_loop :: "RuleLevels \<Rightarrow> string \<Rightarrow> auditResult list \<Rightarrow> string" where
  "Level_loop M lv [] = lv"
| "Level_loop M lv (r # rs) =
     Level_loop M (if level_rank M lv < level_rank M (level r) then level r else lv) rs"

definition Level :: "RuleLevels \<Rightarrow> AuditResult \<Rightarrow> string" where
  "Level M rs = Level_loop M (RuleLevelNormal M) rs"

text \<open>
  \<^verbatim>\<open>Message\<close> tests each finding's message against the pattern that
  \<^verbatim>\<open>Sprintf\<close> builds from the four level names and \<^verbatim>\<open>osc\<close>:
  \<^verbatim>\<open>^\[E|W|N|M|osc\]\<close>. In a regular expression, alternation binds weaker than
  concatenation and than the anchor, so for level names made of letters the pattern
  has five alternatives: the text \<^verbatim>\<open>[E\<close> at the start of the message, or one of the
  texts \<^verbatim>\<open>W\<close>, \<^verbatim>\<open>N\<close>, \<^verbatim>\<open>M\<close>, \<^verbatim>\<open>osc]\<close> anywhere in it
  (\<^verbatim>\<open>regexp.MatchString\<close> looks for a match anywhere).
\<close>

definition tag_match :: "RuleLevels \<Rightarrow> string \<Rightarrow> bool" where
  "tag_match M msg \<longleftrightarrow>
     prefix (''['' @ RuleLevelError M) msg \<or>
     sublist (RuleLevelWarn M) msg \<or>
     sublist (RuleLevelNotice M) msg \<or>
     sublist (RuleLevelNormal M) msg \<or>
     sublist ''osc]'' msg"

definition message_line :: "RuleLevels \<Rightarrow> auditResult \<Rightarrow> string" where
  "message_line M r =
     (if tag_match M (message r) then message r
      else ''['' @ level r @ '']'' @ message r)"

text \<open>\<^verbatim>\<open>strings.Join\<close>.\<close>

fun Join :: "string list \<Rightarrow> string \<Rightarrow> string" where
  "Join [] sep = []"
| "Join [x] sep = x"
| "Join (x # y # ys) sep = x @ sep @ Join (y # ys) sep"

text \<open>\<^verbatim>\<open>Message_lines\<close> is the slice \<^verbatim>\<open>messages\<close> that the loop fills, one entry
  per finding; \<^verbatim>\<open>Message\<close> joins it with newlines.\<close>

definition Message_lines :: "RuleLevels \<Rightarrow> AuditResult \<Rightarrow> string list" where
  "Message_lines M rs = map (message_line M) rs"

definition Message :: "RuleLevels \<Rightarrow> AuditResult \<Rightarrow> string" where
  "Message M rs = Join (Message_lines M rs) [CHR 0x0A]"

text \<open>
  \<^verbatim>\<open>Add\<close> appends one finding unless the level or the message is empty.
  \<^verbatim>\<open>fmt.Sprintf\<close> is a parameter: the claims do not depend on how the arguments
  are formatted.
\<close>

definition Add ::
  "(string \<Rightarrow> 'a list \<Rightarrow> string) \<Rightarrow> AuditResult \<Rightarrow> string \<Rightarrow> string \<Rightarrow> 'a list \<Rightarrow> AuditResult" where
  "Add Sprintf rs lv msg args =
     (if lv = [] \<or> msg = [] then rs
      else rs @ [\<lparr>level = lv, message = Sprintf msg args\<rparr>])"

text \<open>A concrete set of level names with their ranks, for the runs on concrete
  inputs below.\<close>

definition lower_levels :: RuleLevels where
  "lower_levels =
     \<lparr>RuleLevelNormal = ''normal'', RuleLevelNotice = ''notice'',
      RuleLevelWarn = ''warn'', RuleLevelError = ''error'',
      RuleLevelMap = [''normal'' \<mapsto> 0, ''notice'' \<mapsto> 1, ''warn'' \<mapsto> 2, ''error'' \<mapsto> 3]\<rparr>"

section \<open>Package inspector: the statement tree\<close>

text \<open>
  The statement tree comes from the external SQL parser. The types below keep the
  fields that the functions modelled here read, under the parser's names; the
  numeric codes are those of the parser's package \<^verbatim>\<open>mysql\<close>.
\<close>

datatype ColumnOptionType =
    ColumnOptionNoOption | ColumnOptionPrimaryKey | ColumnOptionNotNull
  | ColumnOptionAutoIncrement | ColumnOptionDefaultValue | ColumnOptionUniqKey
  | ColumnOptionNull | ColumnOptionOnUpdate | ColumnOptionFulltext
  | ColumnOptionComment | ColumnOptionGenerated | ColumnOptionReference

datatype ConstraintType =
    ConstraintNoConstraint | ConstraintPrimaryKey | ConstraintKey | ConstraintIndex
  | ConstraintUniq | ConstraintUniqKey | ConstraintUniqIndex | ConstraintForeignKey
  | ConstraintFulltext

datatype AlterTableType =
    AlterTableOption | AlterTableAddColumns | AlterTableAddConstraint
  | AlterTableDropColumn | AlterTableDropPrimaryKey | AlterTableDropIndex
  | AlterTableDropForeignKey | AlterTableModifyColumn | AlterTableChangeColumn
  | AlterTableRenameTable | AlterTableAlterColumn | AlterTableLock
  | AlterTableAlgorithm | AlterTableRenameIndex | AlterTableForce

definition TypeLong :: "8 word" where "TypeLong = 3"
definition TypeLonglong :: "8 word" where "TypeLonglong = 8"
definition UnsignedFlag :: "64 word" where "UnsignedFlag = push_bit 5 1"

definition HasUnsignedFlag :: "64 word \<Rightarrow> bool" where
  "HasUnsignedFlag flag \<longleftrightarrow> 0 < (flag AND UnsignedFlag)"

record FieldType =
  ft_Tp :: "8 word"
  ft_Flag :: "64 word"
  ft_Flen :: int

record ColumnDef =
  col_Name :: string
  col_Tp :: FieldType
  col_Options :: "ColumnOptionType list"

text \<open>A constraint with its type, its name and the names of its key columns.\<close>

record Constraint =
  cons_Tp :: ConstraintType
  cons_Name :: string
  cons_Keys :: "string list"

text \<open>\<^verbatim>\<open>NewTable\<close> and \<^verbatim>\<open>Constraint\<close> are pointers and may be nil.\<close>

record AlterTableSpec =
  spec_Tp :: AlterTableType
  spec_NewTable :: "string option"
  spec_NewColumns :: "ColumnDef list"
  spec_Constraint :: "Constraint option"
  spec_ToKey :: string

record CreateTable =
  ct_Table :: string
  ct_Cols :: "ColumnDef list"
  ct_Constraints :: "Constraint list"

record AlterTable =
  at_Table :: string
  at_Specs :: "AlterTableSpec list"

text \<open>
  The parser marks a statement type as a DDL node or a DML node by the interface it
  implements; \<^verbatim>\<open>USE\<close> and the like implement neither.
\<close>

datatype StmtKind = DDLNode | DMLNode | PlainNode

datatype StmtNode =
    CreateDatabaseStmt string
  | CreateTableStmt CreateTable
  | AlterTableStmt AlterTable
  | CreateIndexStmt string
  | DropDatabaseStmt
  | DropTableStmt
  | SelectStmt
  | InsertStmt
  | UpdateStmt
  | DeleteStmt
  | UseStmt
  | OtherStmt StmtKind

fun stmt_kind :: "StmtNode \<Rightarrow> StmtKind" where
  "stmt_kind (CreateDatabaseStmt _) = DDLNode"
| "stmt_kind (CreateTableStmt _) = DDLNode"
| "stmt_kind (AlterTableStmt _) = DDLNode"
| "stmt_kind (CreateIndexStmt _) = DDLNode"
| "stmt_kind DropDatabaseStmt = DDLNode"
| "stmt_kind DropTableStmt = DDLNode"
| "stmt_kind SelectStmt = DMLNode"
| "stmt_kind InsertStmt = DMLNode"
| "stmt_kind UpdateStmt = DMLNode"
| "stmt_kind DeleteStmt = DMLNode"
| "stmt_kind UseStmt = PlainNode"
| "stmt_kind (OtherStmt k) = k"

section \<open>Package inspector: rule checks\<close>

text \<open>
  A check function reports a finding by calling \<^verbatim>\<open>i.addResult(code, args...)\<close>.
  \<^verbatim>\<open>addResult\<close> is not among the sources, so a check is modelled by what it does
  itself: the sequence of \<^verbatim>\<open>addResult\<close> calls it makes, in order, and the error
  it returns.
\<close>

datatype rule_code =
    DDL_CHECK_PRIMARY_KEY_EXIST
  | DDL_CHECK_PRIMARY_KEY_TYPE
  | DDL_CHECK_OBJECT_NAME_LENGTH
  | DDL_DISABLE_USING_KEYWORD

type_synonym findings = "(rule_code \<times> string list) list"

text \<open>
  Modelled from the spec: \<^verbatim>\<open>IsAllInOptions\<close> is a helper of the inspector package
  that is not among the sources. The spec describes the primary-key check as looking
  at whether the key column is auto-incrementing; the helper tells whether every
  requested option type occurs among a column's options.
\<close>

definition IsAllInOptions :: "ColumnOptionType list \<Rightarrow> ColumnOptionType list \<Rightarrow> bool" where
  "IsAllInOptions Options opTp = list_all (\<lambda>tp. tp \<in> set Options) opTp"

text \<open>The test that \<^verbatim>\<open>checkPrimaryKey\<close> writes out twice.\<close>

definition isAutoIncrementBigIntUnsigned :: "ColumnDef \<Rightarrow> bool" where
  "isAutoIncrementBigIntUnsigned col \<longleftrightarrow>
     ft_Tp (col_Tp col) = TypeLonglong \<and> HasUnsignedFlag (ft_Flag (col_Tp col)) \<and>
     IsAllInOptions (col_Options col) [ColumnOptionAutoIncrement]"

text \<open>First loop: a column that carries the primary-key option. The state is the
  pair \<^verbatim>\<open>(hasPk, pkIsAutoIncrementBigIntUnsigned)\<close>.\<close>

fun pk_cols :: "ColumnDef list \<Rightarrow> bool \<times> bool \<Rightarrow> bool \<times> bool" where
  "pk_cols [] st = st"
| "pk_cols (col # cols) (hasPk, pkOk) =
     pk_cols cols
       (if IsAllInOptions (col_Options col) [ColumnOptionPrimaryKey]
        then (True, if isAutoIncrementBigIntUnsigned col then True else pkOk)
        else (hasPk, pkOk))"

text \<open>Second loop: a primary-key constraint; when it has one key column, the
  columns of that name are examined.\<close>

fun pk_key_cols :: "string \<Rightarrow> ColumnDef list \<Rightarrow> bool \<Rightarrow> bool" where
  "pk_key_cols columnName [] pkOk = pkOk"
| "pk_key_cols columnName (col # cols) pkOk =
     pk_key_cols columnName cols
       (if col_Name col = columnName \<and> isAutoIncrementBigIntUnsigned col then True else pkOk)"

fun pk_constraints :: "ColumnDef list \<Rightarrow> Constraint list \<Rightarrow> bool \<times> bool \<Rightarrow> bool \<times> bool" where
  "pk_constraints stmtCols [] st = st"
| "pk_constraints stmtCols (c # cs) (hasPk, pkOk) =
     pk_constraints stmtCols cs
       (if cons_Tp c = ConstraintPrimaryKey
        then (True,
              case cons_Keys c of
                [columnName] \<Rightarrow> pk_key_cols columnName stmtCols pkOk
              | _ \<Rightarrow> pkOk)
        else (hasPk, pkOk))"

definition checkPrimaryKey :: "StmtNode \<Rightarrow> string \<Rightarrow> findings \<times> error option" where
  "checkPrimaryKey node rule =
     (case node of
        CreateTableStmt stmt \<Rightarrow>
          (case pk_constraints (ct_Cols stmt) (ct_Constraints stmt)
                  (pk_cols (ct_Cols stmt) (False, False)) of
             (hasPk, pkOk) \<Rightarrow>
               ((if \<not> hasPk then [(DDL_CHECK_PRIMARY_KEY_EXIST, [])] else []) @
                (if hasPk \<and> \<not> pkOk then [(DDL_CHECK_PRIMARY_KEY_TYPE, [])] else []),
                None))
      | _ \<Rightarrow> ([], None))"








section \<open>Package inspector: the batch loop\<close>

text \<open>
  The struct \<^verbatim>\<open>Inspector\<close> and the statement type held in \<^verbatim>\<open>SqlArray\<close> are
  declared outside the sources; the records keep the fields that \<^verbatim>\<open>Advise\<close>
  touches. \<open>rest\<close> stands for everything else an inspector holds (the connection,
  the schema context, the recorded \<^verbatim>\<open>ALTER TABLE\<close> statements).

  Modelled from the spec: \<^verbatim>\<open>Advise\<close> records a statement's outcome onto that
  statement's result slot. The loop variable \<^verbatim>\<open>sql\<close> is therefore a pointer into
  the batch, and an assignment to \<^verbatim>\<open>sql.InspectStatus\<close> is an update of the entry
  of \<open>SqlArray\<close> at the loop's index.
\<close>

record Sql =
  sql_Sql :: string
  InspectStatus :: string
  InspectLevel :: string
  InspectResult :: string

record Rule =
  rule_Name :: string
  rule_Level :: string

record 'c Inspector =
  Db :: Instance
  Rules :: "Rule list"
  SqlArray :: "Sql list"
  isDDLStmt :: bool
  isDMLStmt :: bool
  currentRule :: "Rule option"
  Results :: AuditResult
  rest :: 'c

text \<open>
  A check function is a method of the inspector: it takes the statement and the rule
  name, may change the inspector, and returns an error or nil. Go keeps the changes
  made before an error is returned, so the state comes back in both cases.
\<close>

type_synonym 'c check = "StmtNode \<Rightarrow> string \<Rightarrow> 'c Inspector \<Rightarrow> error option \<times> 'c Inspector"

text \<open>
  What \<^verbatim>\<open>Advise\<close> calls and the sources do not define: the parser adapter
  \<^verbatim>\<open>parseOneSql\<close>, the table \<^verbatim>\<open>RulesFunc\<close> that \<^verbatim>\<open>initRulesFunc\<close> fills
  (a rule name may be absent, or bound to a nil function), \<^verbatim>\<open>updateSchemaCtx\<close>,
  the deferred \<^verbatim>\<open>closeDbConn\<close>, the constant \<^verbatim>\<open>model.TASK_ACTION_DONE\<close> and the
  rule levels that the accumulator's \<^verbatim>\<open>level\<close> and \<^verbatim>\<open>message\<close> use.
\<close>

record 'c Env =
  parseOneSql :: "string \<Rightarrow> string \<Rightarrow> error + StmtNode"
  RulesFunc :: "string \<rightharpoonup> 'c check option"
  updateSchemaCtx :: "StmtNode \<Rightarrow> 'c Inspector \<Rightarrow> 'c Inspector"
  closeDbConn :: "'c Inspector \<Rightarrow> 'c Inspector"
  TASK_ACTION_DONE :: string
  levels :: RuleLevels

text \<open>The type switch on the parsed node: the batch's kind is locked by the first
  DDL or DML statement, and a statement of the other kind is refused.\<close>

definition classify :: "StmtNode \<Rightarrow> 'c Inspector \<Rightarrow> error + 'c Inspector" where
  "classify node i =
     (case stmt_kind node of
        DDLNode \<Rightarrow>
          if isDMLStmt i then Inl SQL_STMT_CONFLICT_ERROR else Inr (i\<lparr>isDDLStmt := True\<rparr>)
      | DMLNode \<Rightarrow>
          if isDDLStmt i then Inl SQL_STMT_CONFLICT_ERROR else Inr (i\<lparr>isDMLStmt := True\<rparr>)
      | PlainNode \<Rightarrow> Inr i)"

text \<open>The loop over \<^verbatim>\<open>i.Rules\<close> for one statement.\<close>

fun run_rules :: "'c Env \<Rightarrow> StmtNode \<Rightarrow> Rule list \<Rightarrow> 'c Inspector \<Rightarrow> error option \<times> 'c Inspector" where
  "run_rules E node [] i = (None, i)"
| "run_rules E node (rule # rules) i =
     (let i1 = i\<lparr>currentRule := Some rule\<rparr> in
      case RulesFunc E (rule_Name rule) of
        None \<Rightarrow> run_rules E node rules i1
      | Some None \<Rightarrow> run_rules E node rules i1
      | Some (Some fn) \<Rightarrow>
          (case fn node (rule_Name rule) i1 of
             (Some err, i2) \<Rightarrow> (Some err, i2)
           | (None, i2) \<Rightarrow> run_rules E node rules i2))"

text \<open>
  Recording the outcome on the statement at index \<open>k\<close>.

  Modelled from the spec: the methods \<^verbatim>\<open>level\<close> and \<^verbatim>\<open>message\<close> of the
  inspector's accumulator are not among the sources. The spec gives the accumulator
  one contract, the highest severity of the findings and the formatted message of
  \<^verbatim>\<open>Level\<close> and \<^verbatim>\<open>Message\<close>, which are used here.
\<close>

definition record_result :: "'c Env \<Rightarrow> nat \<Rightarrow> 'c Inspector \<Rightarrow> 'c Inspector" where
  "record_result E k i =
     i\<lparr>SqlArray := (SqlArray i)
        [k := (SqlArray i ! k)
           \<lparr>InspectStatus := TASK_ACTION_DONE E,
            InspectLevel := Level (levels E) (Results i),
            InspectResult := Message (levels E) (Results i)\<rparr>]\<rparr>"

text \<open>The body of the loop of \<^verbatim>\<open>Advise\<close> for the statement at index \<open>k\<close>
  (the loop only visits indexes inside the batch).\<close>

definition advise_stmt :: "'c Env \<Rightarrow> nat \<Rightarrow> 'c Inspector \<Rightarrow> error option \<times> 'c Inspector" where
  "advise_stmt E k i =
     (case parseOneSql E (DbType (Db i)) (sql_Sql (SqlArray i ! k)) of
        Inl err \<Rightarrow> (Some err, i)
      | Inr node \<Rightarrow>
          (case classify node i of
             Inl err \<Rightarrow> (Some err, i)
           | Inr i1 \<Rightarrow>
               (case run_rules E node (Rules i1) i1 of
                  (Some err, i2) \<Rightarrow> (Some err, i2)
                | (None, i2) \<Rightarrow>
                    (None, (updateSchemaCtx E node (record_result E k i2))
                             \<lparr>Results := NewInspectResults\<rparr>))))"

fun advise_loop :: "'c Env \<Rightarrow> nat list \<Rightarrow> 'c Inspector \<Rightarrow> error option \<times> 'c Inspector" where
  "advise_loop E [] i = (None, i)"
| "advise_loop E (k # ks) i =
     (case advise_stmt E k i of
        (Some err, i1) \<Rightarrow> (Some err, i1)
      | (None, i1) \<Rightarrow> advise_loop E ks i1)"

text \<open>\<^verbatim>\<open>Advise\<close>: the loop over the batch, then the deferred \<^verbatim>\<open>closeDbConn\<close>.
  The Go function returns the error only; the inspector it leaves behind is the
  second component.\<close>

definition Advise :: "'c Env \<Rightarrow> 'c Inspector \<Rightarrow> error option \<times> 'c Inspector" where
  "Advise E i =
     (case advise_loop E [0..<length (SqlArray i)] i of
        (err, i1) \<Rightarrow> (err, closeDbConn E i1))"

text \<open>
  No check function of the sources, nor any other callee of \<^verbatim>\<open>Advise\<close>, assigns
  to the batch, to the instance or to the two kind flags. \<open>callees_keep_batch\<close>
  states this of the functions an environment supplies.
\<close>

definition keeps_batch :: "'c Inspector \<Rightarrow> 'c Inspector \<Rightarrow> bool" where
  "keeps_batch i i1 \<longleftrightarrow>
     Db i1 = Db i \<and> SqlArray i1 = SqlArray i \<and>
     isDDLStmt i1 = isDDLStmt i \<and> isDMLStmt i1 = isDMLStmt i"

definition callees_keep_batch :: "'c Env \<Rightarrow> bool" where
  "callees_keep_batch E \<longleftrightarrow>
     (\<forall>name fn node i. RulesFunc E name = Some (Some fn) \<longrightarrow>
        keeps_batch i (snd (fn node name i))) \<and>
     (\<forall>node i. keeps_batch i (updateSchemaCtx E node i)) \<and>
     (\<forall>i. keeps_batch i (closeDbConn E i))"

section \<open>Notions used in the statements\<close>

text \<open>The table \<^verbatim>\<open>RuleLevelMap\<close> ranks the four levels in the order
  Normal, Notice, Warn, Error.\<close>

definition level_order :: "RuleLevels \<Rightarrow> bool" where
  "level_order M \<longleftrightarrow>
     level_rank M (RuleLevelNormal M) < level_rank M (RuleLevelNotice M) \<and>
     level_rank M (RuleLevelNotice M) < level_rank M (RuleLevelWarn M) \<and>
     level_rank M (RuleLevelWarn M) < level_rank M (RuleLevelError M)"

definition known_level :: "RuleLevels \<Rightarrow> string \<Rightarrow> bool" where
  "known_level M l \<longleftrightarrow>
     l = RuleLevelNormal M \<or> l = RuleLevelNotice M \<or> l = RuleLevelWarn M \<or> l = RuleLevelError M"


text \<open>A \<^verbatim>\<open>CREATE TABLE\<close> declares a primary key on a column or as a constraint.\<close>

definition has_primary_key :: "CreateTable \<Rightarrow> bool" where
  "has_primary_key stmt \<longleftrightarrow>
     list_ex (\<lambda>col. ColumnOptionPrimaryKey \<in> set (col_Options col)) (ct_Cols stmt) \<or>
     list_ex (\<lambda>c. cons_Tp c = ConstraintPrimaryKey) (ct_Constraints stmt)"








text \<open>What one pass of the loop body, and a run of the loop over the indexes
  \<open>ks\<close>, may change in the batch.\<close>

definition batch_step :: "nat \<Rightarrow> 'c Inspector \<Rightarrow> 'c Inspector \<Rightarrow> bool" where
  "batch_step k i i1 \<longleftrightarrow>
     Db i1 = Db i \<and> length (SqlArray i1) = length (SqlArray i) \<and>
     map sql_Sql (SqlArray i1) = map sql_Sql (SqlArray i) \<and>
     (\<forall>j. j \<noteq> k \<longrightarrow> SqlArray i1 ! j = SqlArray i ! j) \<and>
     (isDDLStmt i \<longrightarrow> isDDLStmt i1) \<and> (isDMLStmt i \<longrightarrow> isDMLStmt i1)"

definition batch_frame :: "nat list \<Rightarrow> 'c Inspector \<Rightarrow> 'c Inspector \<Rightarrow> bool" where
  "batch_frame ks i i1 \<longleftrightarrow>
     Db i1 = Db i \<and> length (SqlArray i1) = length (SqlArray i) \<and>
     map sql_Sql (SqlArray i1) = map sql_Sql (SqlArray i) \<and>
     (\<forall>j. j \<notin> set ks \<longrightarrow> SqlArray i1 ! j = SqlArray i ! j) \<and>
     (isDDLStmt i \<longrightarrow> isDDLStmt i1) \<and> (isDMLStmt i \<longrightarrow> isDMLStmt i1)"


section \<open>Concrete statements and batches\<close>

text \<open>
  The parser's trees for
  \<^verbatim>\<open>CREATE TABLE t1 (id INT(10) UNSIGNED NOT NULL AUTO_INCREMENT PRIMARY KEY)\<close>,
  for the same statement with \<^verbatim>\<open>BIGINT(20)\<close> in place of \<^verbatim>\<open>INT(10)\<close>, and for
  \<^verbatim>\<open>CREATE TABLE t2 (id INT)\<close>. The parser gives \<^verbatim>\<open>INT\<close> the type code
  \<^verbatim>\<open>TypeLong\<close> and \<^verbatim>\<open>BIGINT\<close> the code \<^verbatim>\<open>TypeLonglong\<close>, sets the unsigned
  flag for \<^verbatim>\<open>UNSIGNED\<close>, and lists the column options in the order written.
\<close>

definition create_t1 :: StmtNode where
  "create_t1 = CreateTableStmt
     \<lparr>ct_Table = ''t1'',
      ct_Cols = [\<lparr>col_Name = ''id'',
                  col_Tp = \<lparr>ft_Tp = TypeLong, ft_Flag = UnsignedFlag, ft_Flen = 10\<rparr>,
                  col_Options = [ColumnOptionNotNull, ColumnOptionAutoIncrement,
                                 ColumnOptionPrimaryKey]\<rparr>],
      ct_Constraints = []\<rparr>"

definition create_t1_bigint :: StmtNode where
  "create_t1_bigint = CreateTableStmt
     \<lparr>ct_Table = ''t1'',
      ct_Cols = [\<lparr>col_Name = ''id'',
                  col_Tp = \<lparr>ft_Tp = TypeLonglong, ft_Flag = UnsignedFlag, ft_Flen = 20\<rparr>,
                  col_Options = [ColumnOptionNotNull, ColumnOptionAutoIncrement,
                                 ColumnOptionPrimaryKey]\<rparr>],
      ct_Constraints = []\<rparr>"

definition create_t2 :: StmtNode where
  "create_t2 = CreateTableStmt
     \<lparr>ct_Table = ''t2'',
      ct_Cols = [\<lparr>col_Name = ''id'',
                  col_Tp = \<lparr>ft_Tp = TypeLong, ft_Flag = 0, ft_Flen = - 1\<rparr>,
                  col_Options = []\<rparr>],
      ct_Constraints = []\<rparr>"

text \<open>\<^verbatim>\<open>CREATE TABLE t3 (a BIGINT UNSIGNED AUTO_INCREMENT, b INT, PRIMARY KEY (a, b))\<close>.\<close>

definition create_t3 :: CreateTable where
  "create_t3 =
     \<lparr>ct_Table = ''t3'',
      ct_Cols = [\<lparr>col_Name = ''a'',
                  col_Tp = \<lparr>ft_Tp = TypeLonglong, ft_Flag = UnsignedFlag, ft_Flen = - 1\<rparr>,
                  col_Options = [ColumnOptionAutoIncrement]\<rparr>,
                 \<lparr>col_Name = ''b'',
                  col_Tp = \<lparr>ft_Tp = TypeLong, ft_Flag = 0, ft_Flen = - 1\<rparr>,
                  col_Options = []\<rparr>],
      ct_Constraints = [\<lparr>cons_Tp = ConstraintPrimaryKey, cons_Name = [],
                         cons_Keys = [''a'', ''b'']\<rparr>]\<rparr>"





text \<open>\<^verbatim>\<open>ALTER TABLE t2 ADD INDEX idx1 (id)\<close>.\<close>

definition alter_t2 :: StmtNode where
  "alter_t2 = AlterTableStmt
     \<lparr>at_Table = ''t2'',
      at_Specs = [\<lparr>spec_Tp = AlterTableAddConstraint, spec_NewTable = None,
                   spec_NewColumns = [],
                   spec_Constraint = Some \<lparr>cons_Tp = ConstraintIndex, cons_Name = ''idx1'',
                                            cons_Keys = [''id'']\<rparr>,
                   spec_ToKey = []\<rparr>]\<rparr>"

text \<open>
  An environment for concrete runs: a parser that knows three statements, and one
  check function that adds a finding for a \<^verbatim>\<open>CREATE TABLE\<close> and fails on an
  \<^verbatim>\<open>ALTER TABLE\<close>, as a check does whose lookup in the live engine fails. The rule
  \<^verbatim>\<open>no_handler\<close> is bound to a nil function.
\<close>

definition check0 :: "unit check" where
  "check0 node rule i =
     (case node of
        CreateTableStmt stmt \<Rightarrow>
          (None, i\<lparr>Results := Add (\<lambda>m (a::string list). m) (Results i)
                                 ''warn'' ''no primary key'' []\<rparr>)
      | AlterTableStmt stmt \<Rightarrow> (Some (ErrorString ''connection refused''), i)
      | _ \<Rightarrow> (None, i))"

definition E0 :: "unit Env" where
  "E0 = \<lparr>parseOneSql = (\<lambda>dbType text.
            if text = ''CREATE TABLE t2 (id INT)'' then Inr create_t2
            else if text = ''ALTER TABLE t2 ADD INDEX idx1 (id)'' then Inr alter_t2
            else if text = ''SELECT * FROM t2'' then Inr SelectStmt
            else Inl (ErrorString ''syntax error'')),
          RulesFunc = [''ddl_check_index'' \<mapsto> Some check0, ''no_handler'' \<mapsto> None],
          updateSchemaCtx = (\<lambda>node i. i),
          closeDbConn = (\<lambda>i. i),
          TASK_ACTION_DONE = ''finished'',
          levels = lower_levels\<rparr>"

definition new_sql :: "string \<Rightarrow> Sql" where
  "new_sql text = \<lparr>sql_Sql = text, InspectStatus = [], InspectLevel = [], InspectResult = []\<rparr>"

definition new_inspector :: "string list \<Rightarrow> unit Inspector" where
  "new_inspector texts =
     \<lparr>Db = \<lparr>DbType = ''mysql''\<rparr>,
      Rules = [\<lparr>rule_Name = ''no_handler'', rule_Level = ''notice''\<rparr>,
               \<lparr>rule_Name = ''ddl_check_index'', rule_Level = ''warn''\<rparr>],
      SqlArray = map new_sql texts,
      isDDLStmt = False, isDMLStmt = False, currentRule = None,
      Results = NewInspectResults, rest = ()\<rparr>"

definition ddl_batch :: "unit Inspector" where
  "ddl_batch = new_inspector [''CREATE TABLE t2 (id INT)'', ''ALTER TABLE t2 ADD INDEX idx1 (id)'']"

definition mixed_batch :: "unit Inspector" where
  "mixed_batch = new_inspector [''CREATE TABLE t2 (id INT)'', ''SELECT * FROM t2'']"

text \<open>The inspector after the \<^verbatim>\<open>CREATE TABLE\<close> of such a batch has been processed;
  \<open>text\<close> is the second statement.\<close>

definition after_create :: "string \<Rightarrow> unit Inspector" where
  "after_create text =
     \<lparr>Db = \<lparr>DbType = ''mysql''\<rparr>,
      Rules = [\<lparr>rule_Name = ''no_handler'', rule_Level = ''notice''\<rparr>,
               \<lparr>rule_Name = ''ddl_check_index'', rule_Level = ''warn''\<rparr>],
      SqlArray = [\<lparr>sql_Sql = ''CREATE TABLE t2 (id INT)'', InspectStatus = ''finished'',
                   InspectLevel = ''warn'', InspectResult = ''[warn]no primary key''\<rparr>,
                  new_sql text],
      isDDLStmt = True, isDMLStmt = False,
      currentRule = Some \<lparr>rule_Name = ''ddl_check_index'', rule_Level = ''warn''\<rparr>,
      Results = NewInspectResults, rest = ()\<rparr>"

section \<open>Properties of the driver package\<close>

subsection \<open>NewDriver\<close>

lemma NewDriver_registered:
  "drivers (DbType inst) = Some d \<Longrightarrow> NewDriver drivers log inst schema = d log inst schema"
  by (simp add: NewDriver_def)

lemma NewDriver_absent:
  "drivers (DbType inst) = None \<Longrightarrow>
   NewDriver drivers log inst schema =
     Inl (ErrorString (ErrDriverNotSupported_Error (DbType inst)))"
  by (simp add: NewDriver_def ErrDriverNotSupported_Error_def)

text \<open>
  C6. For a registered name \<^verbatim>\<open>NewDriver\<close> returns what the handler returns
  (\<open>NewDriver_registered\<close>). For a name that is not registered it returns an error
  whose text names the unknown type, but the error is the plain value built by
  \<^verbatim>\<open>fmt.Errorf\<close> and not a value of the declared type
  \<^verbatim>\<open>ErrDriverNotSupported\<close>: with an empty registry and the type \<^verbatim>\<open>oracle\<close>,
  the result is the untyped error.
\<close>

theorem NewDriver_unregistered_untyped:
  "NewDriver (Map.empty :: string \<rightharpoonup> (unit, unit) handler) () \<lparr>DbType = ''oracle''\<rparr> ''db1'' =
     Inl (ErrorString ''driver type oracle is not supported'') \<and>
   NewDriver (Map.empty :: string \<rightharpoonup> (unit, unit) handler) () \<lparr>DbType = ''oracle''\<rparr> ''db1'' \<noteq>
     Inl (ErrDriverNotSupported ''oracle'')"
  by (simp add: NewDriver_def)

subsection \<open>Level\<close>

lemma Level_loop_ge: "level_rank M lv \<le> level_rank M (Level_loop M lv rs)"
  by (induction rs arbitrary: lv) (auto intro: order_trans less_imp_le)

lemma Level_loop_upper:
  "r \<in> set rs \<Longrightarrow> level_rank M (level r) \<le> level_rank M (Level_loop M lv rs)"
proof (induction rs arbitrary: lv)
  case Nil
  then show ?case by simp
next
  case (Cons a rs)
  show ?case
  proof (cases "r = a")
    case True
    have "level_rank M (level a) \<le>
          level_rank M (if level_rank M lv < level_rank M (level a) then level a else lv)"
      by simp
    also have "\<dots> \<le> level_rank M (Level_loop M lv (a # rs))"
      using Level_loop_ge by simp
    finally show ?thesis using True by simp
  next
    case False
    with Cons show ?thesis by simp
  qed
qed

lemma Level_loop_cases:
  "Level_loop M lv rs = lv \<or> Level_loop M lv rs \<in> level ` set rs"
proof (induction rs arbitrary: lv)
  case Nil
  then show ?case by simp
next
  case (Cons a rs)
  show ?case
    using Cons [of "if level_rank M lv < level_rank M (level a) then level a else lv"]
    by (auto split: if_splits)
qed

text \<open>
  C7. Let the table rank the four levels in the order Normal, Notice, Warn, Error,
  and let every finding carry one of the four levels. Then \<^verbatim>\<open>Level\<close> of the empty
  result is Normal, and \<^verbatim>\<open>Level\<close> of a non-empty result is a level that occurs
  among the findings and that no finding's level outranks.
\<close>

theorem Level_max:
  assumes ord: "level_order M"
    and known: "\<forall>r \<in> set rs. known_level M (level r)"
  shows "Level M [] = RuleLevelNormal M \<and>
         (rs \<noteq> [] \<longrightarrow>
            Level M rs \<in> level ` set rs \<and>
            (\<forall>r \<in> set rs. level_rank M (level r) \<le> level_rank M (Level M rs)))"
proof -
  have upper: "\<forall>r \<in> set rs. level_rank M (level r) \<le> level_rank M (Level M rs)"
    by (simp add: Level_def Level_loop_upper)
  have present: "Level M rs \<in> level ` set rs" if ne: "rs \<noteq> []"
  proof (cases "Level M rs = RuleLevelNormal M")
    case False
    then show ?thesis
      using Level_loop_cases [of M "RuleLevelNormal M" rs] by (simp add: Level_def)
  next
    case True
    from ne obtain r where r: "r \<in> set rs" by (cases rs) auto
    with upper True have le: "level_rank M (level r) \<le> level_rank M (RuleLevelNormal M)"
      by auto
    from known r have "known_level M (level r)" by blast
    with le ord have "level r = RuleLevelNormal M"
      by (auto simp: known_level_def level_order_def)
    with r True show ?thesis by force
  qed
  show ?thesis using upper present by (simp add: Level_def)
qed

text \<open>Findings at Normal, Warn and Notice: the level is Warn.\<close>

theorem Level_max_witness:
  "Level lower_levels [] = ''normal'' \<and>
   Level lower_levels
     [\<lparr>level = ''normal'', message = ''a''\<rparr>, \<lparr>level = ''warn'', message = ''b''\<rparr>,
      \<lparr>level = ''notice'', message = ''c''\<rparr>] = ''warn''"
proof -
  let ?rs = "[\<lparr>level = ''normal'', message = ''a''\<rparr>, \<lparr>level = ''warn'', message = ''b''\<rparr>,
      \<lparr>level = ''notice'', message = ''c''\<rparr>]"
  have ord: "level_order lower_levels"
    by (simp add: level_order_def level_rank_def lower_levels_def)
  have known: "\<forall>r \<in> set ?rs. known_level lower_levels (level r)"
    by (simp add: known_level_def lower_levels_def)
  have "Level lower_levels ?rs \<in> level ` set ?rs \<and>
        (\<forall>r \<in> set ?rs. level_rank lower_levels (level r)
                          \<le> level_rank lower_levels (Level lower_levels ?rs))"
    using Level_max [OF ord known] by simp
  then have "Level lower_levels ?rs = ''warn''"
    by (auto simp: level_rank_def lower_levels_def)
  moreover have "Level lower_levels [] = ''normal''"
    using Level_max [OF ord known] by (simp add: lower_levels_def)
  ultimately show ?thesis by simp
qed

subsection \<open>Message\<close>





lemma message_line_raw_iff: "message_line M r = message r \<longleftrightarrow> tag_match M (message r)"
  by (simp add: message_line_def)

text \<open>
  C4. A line of \<^verbatim>\<open>Message\<close> is the raw message exactly when the pattern matches
  (\<open>message_line_raw_iff\<close>), and the pattern also matches a message that has no
  bracketed tag at its start: a message that merely contains the Warn level's name is
  kept raw, whatever the finding's level, instead of being prefixed with the level.
\<close>

theorem Message_untagged_kept_raw:
  "Message M [\<lparr>level = lv, message = ''no '' @ RuleLevelWarn M @ ''ing here''\<rparr>] =
     ''no '' @ RuleLevelWarn M @ ''ing here''"
proof -
  have "sublist (RuleLevelWarn M) (''no '' @ RuleLevelWarn M @ ''ing here'')"
    by (rule sublist_appendI)
  then show ?thesis
    by (simp add: Message_def Message_lines_def message_line_def tag_match_def)
qed

lemma Message_warning_example:
  "Message lower_levels [\<lparr>level = ''error'', message = ''no warning here''\<rparr>] =
     ''no warning here''"
  by (simp add: Message_def Message_lines_def message_line_def tag_match_def lower_levels_def
      sublist_Cons_right)



subsection \<open>Add\<close>

text \<open>
  C10. A call of \<^verbatim>\<open>Add\<close> with an empty level or an empty message leaves the
  findings as they are, and so \<^verbatim>\<open>Level\<close> and \<^verbatim>\<open>Message\<close> as well.
\<close>

theorem Add_empty_noop:
  assumes "lv = [] \<or> msg = []"
  shows "Add Sprintf rs lv msg args = rs \<and>
         Level M (Add Sprintf rs lv msg args) = Level M rs \<and>
         Message M (Add Sprintf rs lv msg args) = Message M rs"
  using assms by (auto simp: Add_def)

text \<open>Once with an empty level, once with an empty message.\<close>

theorem Add_empty_noop_witness:
  "Add (\<lambda>m (a::string list). m) [\<lparr>level = ''warn'', message = ''x''\<rparr>] [] ''%s exists'' [''t1'']
     = [\<lparr>level = ''warn'', message = ''x''\<rparr>] \<and>
   Add (\<lambda>m (a::string list). m) [\<lparr>level = ''warn'', message = ''x''\<rparr>] ''error'' [] [''t1'']
     = [\<lparr>level = ''warn'', message = ''x''\<rparr>]"
proof -
  have h1: "([]::string) = [] \<or> ''%s exists'' = []" by simp
  have h2: "''error'' = [] \<or> ([]::string) = []" by simp
  show ?thesis
    using Add_empty_noop [OF h1, of "\<lambda>m a. m" "[\<lparr>level = ''warn'', message = ''x''\<rparr>]"
                            "[''t1'']" lower_levels]
      Add_empty_noop [OF h2, of "\<lambda>m a. m" "[\<lparr>level = ''warn'', message = ''x''\<rparr>]"
                            "[''t1'']" lower_levels]
    by simp
qed

section \<open>Properties of the rule checks\<close>

subsection \<open>checkPrimaryKey\<close>

lemmas pk_eval = checkPrimaryKey_def IsAllInOptions_def isAutoIncrementBigIntUnsigned_def
  HasUnsignedFlag_def UnsignedFlag_def TypeLong_def TypeLonglong_def

text \<open>
  C2, as stated, fails on its first statement: the key column of \<^verbatim>\<open>t1\<close> is an
  \<^verbatim>\<open>INT(10)\<close>, not a \<^verbatim>\<open>BIGINT\<close>, so the check adds the wrong-primary-key-type
  finding.
\<close>

theorem checkPrimaryKey_int_key_flagged:
  "fst (checkPrimaryKey create_t1 ''ddl_check_primary_key'') = [(DDL_CHECK_PRIMARY_KEY_TYPE, [])]"
  by (simp add: create_t1_def pk_eval)

text \<open>
  C2, amended. On \<^verbatim>\<open>CREATE TABLE t1 (id INT(10) UNSIGNED NOT NULL AUTO_INCREMENT
  PRIMARY KEY)\<close> the check adds no missing-primary-key finding and exactly one
  wrong-primary-key-type finding; on the same statement with a \<^verbatim>\<open>BIGINT\<close> key it
  adds no finding; on \<^verbatim>\<open>CREATE TABLE t2 (id INT)\<close> it adds exactly one
  missing-primary-key finding and nothing else. It returns no error.
\<close>

theorem checkPrimaryKey_examples:
  "checkPrimaryKey create_t1 rule = ([(DDL_CHECK_PRIMARY_KEY_TYPE, [])], None) \<and>
   checkPrimaryKey create_t1_bigint rule = ([], None) \<and>
   checkPrimaryKey create_t2 rule = ([(DDL_CHECK_PRIMARY_KEY_EXIST, [])], None)"
  by (simp add: create_t1_def create_t1_bigint_def create_t2_def pk_eval)

lemma pk_cols_fst:
  "fst (pk_cols cols (hasPk, pkOk)) \<longleftrightarrow>
     hasPk \<or> list_ex (\<lambda>col. ColumnOptionPrimaryKey \<in> set (col_Options col)) cols"
  by (induction cols arbitrary: hasPk pkOk) (auto simp: IsAllInOptions_def)

lemma pk_constraints_fst:
  "fst (pk_constraints stmtCols cs (hasPk, pkOk)) \<longleftrightarrow>
     hasPk \<or> list_ex (\<lambda>c. cons_Tp c = ConstraintPrimaryKey) cs"
  by (induction cs arbitrary: hasPk pkOk) auto

lemma hasPk_has_primary_key:
  "fst (pk_constraints (ct_Cols stmt) (ct_Constraints stmt) (pk_cols (ct_Cols stmt) (False, False)))
     \<longleftrightarrow> has_primary_key stmt"
proof -
  obtain a b where ab: "pk_cols (ct_Cols stmt) (False, False) = (a, b)" by fastforce
  have "a \<longleftrightarrow> list_ex (\<lambda>col. ColumnOptionPrimaryKey \<in> set (col_Options col)) (ct_Cols stmt)"
    using pk_cols_fst [of "ct_Cols stmt" False False] ab by simp
  then show ?thesis
    using pk_constraints_fst [of "ct_Cols stmt" "ct_Constraints stmt" a b] ab
    by (simp add: has_primary_key_def)
qed

lemma checkPrimaryKey_CreateTable:
  "fst (checkPrimaryKey (CreateTableStmt stmt) rule) =
     (if \<not> has_primary_key stmt then [(DDL_CHECK_PRIMARY_KEY_EXIST, [])]
      else if snd (pk_constraints (ct_Cols stmt) (ct_Constraints stmt)
                     (pk_cols (ct_Cols stmt) (False, False)))
      then [] else [(DDL_CHECK_PRIMARY_KEY_TYPE, [])])"
  using hasPk_has_primary_key [of stmt]
  by (auto simp: checkPrimaryKey_def split: prod.splits)

lemma checkPrimaryKey_other:
  "(\<And>stmt. node \<noteq> CreateTableStmt stmt) \<Longrightarrow> checkPrimaryKey node rule = ([], None)"
  by (cases node) (auto simp: checkPrimaryKey_def)

text \<open>
  C3, as stated, fails: no statement makes a single run of the check add both the
  missing-primary-key finding and the wrong-primary-key-type finding. The second is
  guarded by \<^verbatim>\<open>hasPk\<close>, the first by its negation.
\<close>

theorem checkPrimaryKey_never_both:
  "\<not> (\<exists>node rule.
        (DDL_CHECK_PRIMARY_KEY_EXIST, []) \<in> set (fst (checkPrimaryKey node rule)) \<and>
        (DDL_CHECK_PRIMARY_KEY_TYPE, []) \<in> set (fst (checkPrimaryKey node rule)))"
proof
  assume "\<exists>node rule.
        (DDL_CHECK_PRIMARY_KEY_EXIST, []) \<in> set (fst (checkPrimaryKey node rule)) \<and>
        (DDL_CHECK_PRIMARY_KEY_TYPE, []) \<in> set (fst (checkPrimaryKey node rule))"
  then obtain node rule where
    both: "(DDL_CHECK_PRIMARY_KEY_EXIST, []) \<in> set (fst (checkPrimaryKey node rule))"
          "(DDL_CHECK_PRIMARY_KEY_TYPE, []) \<in> set (fst (checkPrimaryKey node rule))"
    by blast
  show False
  proof (cases "\<exists>stmt. node = CreateTableStmt stmt")
    case True
    then obtain stmt where "node = CreateTableStmt stmt" by blast
    with both show False
      by (simp add: checkPrimaryKey_CreateTable split: if_splits)
  next
    case False
    then have "checkPrimaryKey node rule = ([], None)"
      by (intro checkPrimaryKey_other) blast
    with both show False by simp
  qed
qed

text \<open>
  C3, amended. The two findings exclude each other: a run of the check adds at most
  one finding. For a \<^verbatim>\<open>CREATE TABLE\<close> it adds the missing-primary-key finding
  exactly when the statement declares no primary key, and the
  wrong-primary-key-type finding only when it declares one.
\<close>

theorem checkPrimaryKey_one_finding:
  "length (fst (checkPrimaryKey node rule)) \<le> 1 \<and>
   (node = CreateTableStmt stmt \<longrightarrow>
      ((DDL_CHECK_PRIMARY_KEY_EXIST, []) \<in> set (fst (checkPrimaryKey node rule))
         \<longleftrightarrow> \<not> has_primary_key stmt) \<and>
      ((DDL_CHECK_PRIMARY_KEY_TYPE, []) \<in> set (fst (checkPrimaryKey node rule))
         \<longrightarrow> has_primary_key stmt))"
proof (cases "\<exists>s. node = CreateTableStmt s")
  case True
  then obtain s where "node = CreateTableStmt s" by blast
  then show ?thesis by (simp add: checkPrimaryKey_CreateTable)
next
  case False
  then have "checkPrimaryKey node rule = ([], None)"
    by (intro checkPrimaryKey_other) blast
  with False show ?thesis by simp
qed

text \<open>A primary key over two columns: only the wrong-type finding is added.\<close>

theorem checkPrimaryKey_one_finding_witness:
  "has_primary_key create_t3 \<and>
   fst (checkPrimaryKey (CreateTableStmt create_t3) ''ddl_check_primary_key'') =
     [(DDL_CHECK_PRIMARY_KEY_TYPE, [])] \<and>
   (DDL_CHECK_PRIMARY_KEY_EXIST, []) \<notin>
     set (fst (checkPrimaryKey (CreateTableStmt create_t3) ''ddl_check_primary_key''))"
proof -
  have pk: "has_primary_key create_t3"
    by (simp add: has_primary_key_def create_t3_def)
  have run: "fst (checkPrimaryKey (CreateTableStmt create_t3) ''ddl_check_primary_key'') =
     [(DDL_CHECK_PRIMARY_KEY_TYPE, [])]"
    by (simp add: create_t3_def pk_eval)
  from checkPrimaryKey_one_finding
         [of "CreateTableStmt create_t3" "''ddl_check_primary_key''" create_t3] pk run
  show ?thesis by simp
qed

subsection \<open>checkNewObjectName\<close>













section \<open>Properties of the batch loop\<close>

subsection \<open>What the callees leave alone\<close>

lemma keeps_batch_refl: "keeps_batch i i"
  by (simp add: keeps_batch_def)

lemma keeps_batch_trans: "keeps_batch i i1 \<Longrightarrow> keeps_batch i1 i2 \<Longrightarrow> keeps_batch i i2"
  by (simp add: keeps_batch_def)

lemma keeps_batch_currentRule: "keeps_batch i (i\<lparr>currentRule := r\<rparr>)"
  by (simp add: keeps_batch_def)

lemma run_rules_keeps:
  assumes "callees_keep_batch E"
  shows "keeps_batch i (snd (run_rules E node rules i))"
proof (induction rules arbitrary: i)
  case Nil
  show ?case by (simp add: keeps_batch_refl)
next
  case (Cons rule rules)
  let ?i1 = "i\<lparr>currentRule := Some rule\<rparr>"
  have k1: "keeps_batch i ?i1" by (rule keeps_batch_currentRule)
  show ?case
  proof (cases "RulesFunc E (rule_Name rule)")
    case None
    then show ?thesis
      using keeps_batch_trans [OF k1 Cons.IH [of ?i1]] by simp
  next
    case (Some f)
    note bound = Some
    show ?thesis
    proof (cases f)
      case None
      with bound show ?thesis
        using keeps_batch_trans [OF k1 Cons.IH [of ?i1]] by simp
    next
      case (Some fn)
      obtain e i2 where r: "fn node (rule_Name rule) ?i1 = (e, i2)" by fastforce
      have "keeps_batch ?i1 (snd (fn node (rule_Name rule) ?i1))"
        using assms bound Some unfolding callees_keep_batch_def by blast
      with r have k2: "keeps_batch i i2"
        using keeps_batch_trans [OF k1] by simp
      show ?thesis
      proof (cases e)
        case None
        with r bound Some show ?thesis
          using keeps_batch_trans [OF k2 Cons.IH [of i2]] by simp
      next
        case (Some err)
        with r bound \<open>f = Some fn\<close> k2 show ?thesis by simp
      qed
    qed
  qed
qed

subsection \<open>One statement\<close>

lemma classify_Inr:
  "classify node i = Inr i1 \<Longrightarrow>
   Db i1 = Db i \<and> SqlArray i1 = SqlArray i \<and> Rules i1 = Rules i \<and>
   (isDDLStmt i \<longrightarrow> isDDLStmt i1) \<and> (isDMLStmt i \<longrightarrow> isDMLStmt i1) \<and>
   (stmt_kind node = DDLNode \<longrightarrow> isDDLStmt i1) \<and>
   (stmt_kind node = DMLNode \<longrightarrow> isDMLStmt i1)"
  by (auto simp: classify_def split: StmtKind.splits if_splits)

lemma map_sql_update:
  "k < length xs \<Longrightarrow>
   map sql_Sql (xs[k := (xs ! k)\<lparr>InspectStatus := a, InspectLevel := b, InspectResult := c\<rparr>])
     = map sql_Sql xs"
  by (simp add: map_update list_update_same_conv)

text \<open>The four ways the loop body ends: a parse error, a kind conflict, a failing
  check, or the outcome recorded.\<close>

lemma advise_stmt_cases:
  assumes "advise_stmt E k i = (e, i')"
  obtains (parse) err where "parseOneSql E (DbType (Db i)) (sql_Sql (SqlArray i ! k)) = Inl err"
      "e = Some err" "i' = i"
  | (conflict) node err where "parseOneSql E (DbType (Db i)) (sql_Sql (SqlArray i ! k)) = Inr node"
      "classify node i = Inl err" "e = Some err" "i' = i"
  | (check) node i1 err where "parseOneSql E (DbType (Db i)) (sql_Sql (SqlArray i ! k)) = Inr node"
      "classify node i = Inr i1" "run_rules E node (Rules i1) i1 = (Some err, i')" "e = Some err"
  | (recorded) node i1 i2 where "parseOneSql E (DbType (Db i)) (sql_Sql (SqlArray i ! k)) = Inr node"
      "classify node i = Inr i1" "run_rules E node (Rules i1) i1 = (None, i2)" "e = None"
      "i' = (updateSchemaCtx E node (record_result E k i2))\<lparr>Results := NewInspectResults\<rparr>"
proof (cases "parseOneSql E (DbType (Db i)) (sql_Sql (SqlArray i ! k))")
  case (Inl err)
  with assms have "e = Some err" "i' = i" by (simp_all add: advise_stmt_def)
  with Inl show ?thesis by (rule parse)
next
  case (Inr node)
  note p = Inr
  show ?thesis
  proof (cases "classify node i")
    case (Inl err)
    with assms p have "e = Some err" "i' = i" by (simp_all add: advise_stmt_def)
    with p Inl show ?thesis by (rule conflict)
  next
    case (Inr i1)
    obtain r i2 where rr: "run_rules E node (Rules i1) i1 = (r, i2)" by fastforce
    show ?thesis
    proof (cases r)
      case None
      with assms p Inr rr have "e = None"
        "i' = (updateSchemaCtx E node (record_result E k i2))\<lparr>Results := NewInspectResults\<rparr>"
        by (simp_all add: advise_stmt_def)
      with p Inr rr None show ?thesis by (intro recorded [of node i1 i2]) simp_all
    next
      case (Some err)
      with assms p Inr rr have "e = Some err" "i' = i2" by (simp_all add: advise_stmt_def)
      with p Inr rr Some show ?thesis by (intro check [of node i1 err]) simp_all
    qed
  qed
qed

lemma advise_stmt_step:
  assumes fr: "callees_keep_batch E" and k: "k < length (SqlArray i)"
    and run: "advise_stmt E k i = (e, i')"
  shows "batch_step k i i'"
    and "e \<noteq> None \<Longrightarrow> SqlArray i' = SqlArray i"
    and "e = None \<Longrightarrow> InspectStatus (SqlArray i' ! k) = TASK_ACTION_DONE E"
    and "e = None \<Longrightarrow> parseOneSql E (DbType (Db i)) (sql_Sql (SqlArray i ! k)) = Inr node \<Longrightarrow>
           (stmt_kind node = DDLNode \<longrightarrow> isDDLStmt i') \<and> (stmt_kind node = DMLNode \<longrightarrow> isDMLStmt i')"
proof -
  have "batch_step k i i' \<and> (e \<noteq> None \<longrightarrow> SqlArray i' = SqlArray i) \<and>
        (e = None \<longrightarrow> InspectStatus (SqlArray i' ! k) = TASK_ACTION_DONE E \<and>
           (\<forall>node. parseOneSql E (DbType (Db i)) (sql_Sql (SqlArray i ! k)) = Inr node \<longrightarrow>
              (stmt_kind node = DDLNode \<longrightarrow> isDDLStmt i') \<and>
              (stmt_kind node = DMLNode \<longrightarrow> isDMLStmt i')))"
  using run
  proof (cases rule: advise_stmt_cases)
    case (parse err)
    then show ?thesis by (simp add: batch_step_def)
  next
    case (conflict node err)
    then show ?thesis by (simp add: batch_step_def)
  next
    case (check node i1 err)
    have "keeps_batch i1 i'"
      using run_rules_keeps [OF fr, of i1 node "Rules i1"] check(3) by simp
    with classify_Inr [OF check(2)] check(4) show ?thesis
      by (simp add: batch_step_def keeps_batch_def)
  next
    case (recorded node i1 i2)
    have k2: "keeps_batch i1 i2"
      using run_rules_keeps [OF fr, of i1 node "Rules i1"] recorded(3) by simp
    let ?i3 = "record_result E k i2"
    have k3: "keeps_batch ?i3 (updateSchemaCtx E node ?i3)"
      using fr unfolding callees_keep_batch_def by blast
    have arr: "SqlArray i' = (SqlArray i)[k := (SqlArray i ! k)
           \<lparr>InspectStatus := TASK_ACTION_DONE E,
            InspectLevel := Level (levels E) (Results i2),
            InspectResult := Message (levels E) (Results i2)\<rparr>]"
      using k2 k3 classify_Inr [OF recorded(2)] recorded(5)
      by (simp add: keeps_batch_def record_result_def)
    have other: "Db i' = Db i \<and> isDDLStmt i' = isDDLStmt i1 \<and> isDMLStmt i' = isDMLStmt i1"
      using k2 k3 classify_Inr [OF recorded(2)] recorded(5)
      by (simp add: keeps_batch_def record_result_def)
    have "batch_step k i i'"
      using arr other classify_Inr [OF recorded(2)] k
      by (simp add: batch_step_def map_sql_update)
    moreover have "InspectStatus (SqlArray i' ! k) = TASK_ACTION_DONE E"
      using arr k by simp
    ultimately show ?thesis
      using recorded(1,4) other classify_Inr [OF recorded(2)] by simp
  qed
  then show "batch_step k i i'"
    and "e \<noteq> None \<Longrightarrow> SqlArray i' = SqlArray i"
    and "e = None \<Longrightarrow> InspectStatus (SqlArray i' ! k) = TASK_ACTION_DONE E"
    and "e = None \<Longrightarrow> parseOneSql E (DbType (Db i)) (sql_Sql (SqlArray i ! k)) = Inr node \<Longrightarrow>
           (stmt_kind node = DDLNode \<longrightarrow> isDDLStmt i') \<and> (stmt_kind node = DMLNode \<longrightarrow> isDMLStmt i')"
    by blast+
qed

subsection \<open>The loop\<close>

lemma advise_loop_Cons_cases:
  assumes "advise_loop E (k # ks) i = (e, i')"
  obtains (stop) err where "advise_stmt E k i = (Some err, i')" "e = Some err"
  | (continue) i1 where "advise_stmt E k i = (None, i1)" "advise_loop E ks i1 = (e, i')"
proof -
  obtain r i1 where s: "advise_stmt E k i = (r, i1)" by fastforce
  show ?thesis
  proof (cases r)
    case None
    with s assms have "advise_loop E ks i1 = (e, i')" by simp
    with s None show ?thesis by (intro continue [of i1]) simp_all
  next
    case (Some err)
    with s assms have "e = Some err" "i' = i1" by simp_all
    with s Some show ?thesis by (intro stop [of err]) simp_all
  qed
qed

lemma advise_loop_frame:
  assumes fr: "callees_keep_batch E"
  shows "\<forall>k \<in> set ks. k < length (SqlArray i) \<Longrightarrow> advise_loop E ks i = (e, i') \<Longrightarrow>
         batch_frame ks i i'"
proof (induction ks arbitrary: i)
  case Nil
  then show ?case by (simp add: batch_frame_def)
next
  case (Cons k ks)
  from Cons.prems(1) have k: "k < length (SqlArray i)" by simp
  from Cons.prems(2) show ?case
  proof (cases rule: advise_loop_Cons_cases)
    case (stop err)
    from advise_stmt_step(1) [OF fr k stop(1)] show ?thesis
      by (simp add: batch_step_def batch_frame_def)
  next
    case (continue i1)
    have s: "batch_step k i i1" by (rule advise_stmt_step(1) [OF fr k continue(1)])
    then have "\<forall>k \<in> set ks. k < length (SqlArray i1)"
      using Cons.prems(1) by (simp add: batch_step_def)
    then have "batch_frame ks i1 i'" using continue(2) by (rule Cons.IH)
    with s show ?thesis by (simp add: batch_step_def batch_frame_def)
  qed
qed


lemma advise_loop_kind:
  assumes fr: "callees_keep_batch E"
  shows "\<forall>k \<in> set ks. k < length (SqlArray i) \<Longrightarrow> advise_loop E ks i = (None, i') \<Longrightarrow>
         j \<in> set ks \<Longrightarrow>
         parseOneSql E (DbType (Db i)) (sql_Sql (SqlArray i ! j)) = Inr node \<Longrightarrow>
         (stmt_kind node = DDLNode \<longrightarrow> isDDLStmt i') \<and>
         (stmt_kind node = DMLNode \<longrightarrow> isDMLStmt i')"
proof (induction ks arbitrary: i)
  case Nil
  then show ?case by simp
next
  case (Cons k ks)
  from Cons.prems(1) have k: "k < length (SqlArray i)" by simp
  from Cons.prems(2) show ?case
  proof (cases rule: advise_loop_Cons_cases)
    case (stop err)
    then show ?thesis by simp
  next
    case (continue i1)
    have s: "batch_step k i i1" by (rule advise_stmt_step(1) [OF fr k continue(1)])
    then have bound: "\<forall>k \<in> set ks. k < length (SqlArray i1)"
      using Cons.prems(1) by (simp add: batch_step_def)
    have fr2: "batch_frame ks i1 i'" using bound continue(2) by (rule advise_loop_frame [OF fr])
    show ?thesis
    proof (cases "j = k")
      case True
      with advise_stmt_step(4) [OF fr k continue(1) refl, of node] Cons.prems(4)
      have "(stmt_kind node = DDLNode \<longrightarrow> isDDLStmt i1) \<and>
            (stmt_kind node = DMLNode \<longrightarrow> isDMLStmt i1)" by simp
      with fr2 show ?thesis by (simp add: batch_frame_def)
    next
      case False
      with Cons.prems(3) have j: "j \<in> set ks" by simp
      from s False have "sql_Sql (SqlArray i1 ! j) = sql_Sql (SqlArray i ! j)"
        by (simp add: batch_step_def)
      moreover from s have "Db i1 = Db i" by (simp add: batch_step_def)
      ultimately have "parseOneSql E (DbType (Db i1)) (sql_Sql (SqlArray i1 ! j)) = Inr node"
        using Cons.prems(4) by simp
      with bound continue(2) j show ?thesis by (intro Cons.IH)
    qed
  qed
qed

lemma advise_loop_append:
  "advise_loop E (ks @ ks') i =
     (case advise_loop E ks i of
        (Some err, i1) \<Rightarrow> (Some err, i1)
      | (None, i1) \<Rightarrow> advise_loop E ks' i1)"
  by (induction ks arbitrary: i) (auto split: prod.splits option.splits)

lemma advise_loop_stop_at:
  assumes "k < n" and "advise_loop E [0..<k] i = (None, i1)"
    and "advise_stmt E k i1 = (Some err, i2)"
  shows "advise_loop E [0..<n] i = (Some err, i2)"
proof -
  from \<open>k < n\<close> have "[0..<n] = [0..<k] @ k # [Suc k..<n]"
    by (metis le_add1 less_imp_add_positive upt_add_eq_append upt_conv_Cons add_0)
  then show ?thesis using assms(2,3) by (simp add: advise_loop_append)
qed



subsection \<open>Concrete runs\<close>

lemmas run_eval = Advise_def advise_stmt_def classify_def record_result_def E0_def check0_def
  new_inspector_def new_sql_def ddl_batch_def mixed_batch_def create_t2_def alter_t2_def
  NewInspectResults_def Add_def Level_def Message_def Message_lines_def message_line_def
  tag_match_def level_rank_def lower_levels_def upt_rec sublist_Cons_right

lemma E0_keeps: "callees_keep_batch E0"
  by (auto simp: callees_keep_batch_def keeps_batch_def E0_def check0_def
      split: if_splits StmtNode.splits)

lemma E0_after_create:
  "advise_loop E0 [0..<1] (new_inspector [''CREATE TABLE t2 (id INT)'', text]) =
     (None, after_create text)"
  by (simp add: run_eval after_create_def)

subsection \<open>A failing check\<close>




subsection \<open>Mixing DDL and DML\<close>

text \<open>
  C5. Let the callees of \<^verbatim>\<open>Advise\<close> leave the batch, the instance and the kind
  flags alone, and let the statements before statement \<open>k\<close> be processed without
  error. If one of them is a DDL statement and statement \<open>k\<close> is a DML statement, or
  the other way round, then the loop body for statement \<open>k\<close> returns the
  statement-kind-conflict error and leaves the inspector exactly as it found it: no
  check has run and nothing is recorded for the statement. \<^verbatim>\<open>Advise\<close> returns
  that error.
\<close>

theorem Advise_kind_conflict:
  assumes fr: "callees_keep_batch E"
    and k: "k < length (SqlArray i)"
    and before: "advise_loop E [0..<k] i = (None, i1)"
    and j: "j < k"
    and first: "parseOneSql E (DbType (Db i)) (sql_Sql (SqlArray i ! j)) = Inr nj"
    and later: "parseOneSql E (DbType (Db i)) (sql_Sql (SqlArray i ! k)) = Inr nk"
    and kinds: "stmt_kind nj = DDLNode \<and> stmt_kind nk = DMLNode \<or>
                stmt_kind nj = DMLNode \<and> stmt_kind nk = DDLNode"
  shows "advise_stmt E k i1 = (Some SQL_STMT_CONFLICT_ERROR, i1) \<and>
         Advise E i = (Some SQL_STMT_CONFLICT_ERROR, closeDbConn E i1) \<and>
         SqlArray (snd (Advise E i)) ! k = SqlArray i ! k"
proof -
  have bound: "\<forall>j \<in> set [0..<k]. j < length (SqlArray i)" using k by simp
  have fr1: "batch_frame [0..<k] i i1"
    using bound before by (rule advise_loop_frame [OF fr])
  have "j \<in> set [0..<k]" using j by simp
  then have flags: "(stmt_kind nj = DDLNode \<longrightarrow> isDDLStmt i1) \<and>
                    (stmt_kind nj = DMLNode \<longrightarrow> isDMLStmt i1)"
    using first by (intro advise_loop_kind [OF fr bound before])
  have slot: "SqlArray i1 ! k = SqlArray i ! k"
    using fr1 by (simp add: batch_frame_def)
  have "Db i1 = Db i" using fr1 by (simp add: batch_frame_def)
  with slot later
  have parse1: "parseOneSql E (DbType (Db i1)) (sql_Sql (SqlArray i1 ! k)) = Inr nk"
    by simp
  have "classify nk i1 = Inl SQL_STMT_CONFLICT_ERROR"
    using kinds flags by (auto simp: classify_def)
  with parse1 have stmt: "advise_stmt E k i1 = (Some SQL_STMT_CONFLICT_ERROR, i1)"
    by (simp add: advise_stmt_def)
  have loop: "advise_loop E [0..<length (SqlArray i)] i = (Some SQL_STMT_CONFLICT_ERROR, i1)"
    using k before stmt by (rule advise_loop_stop_at)
  then have adv: "Advise E i = (Some SQL_STMT_CONFLICT_ERROR, closeDbConn E i1)"
    by (simp add: Advise_def)
  have "keeps_batch i1 (closeDbConn E i1)"
    using fr unfolding callees_keep_batch_def by blast
  with adv slot have "SqlArray (snd (Advise E i)) ! k = SqlArray i ! k"
    by (simp add: keeps_batch_def)
  with stmt adv show ?thesis by simp
qed

text \<open>A \<^verbatim>\<open>CREATE TABLE\<close> followed by a \<^verbatim>\<open>SELECT\<close>: the conflict error, with the
  inspector as the \<^verbatim>\<open>CREATE TABLE\<close> left it and the \<^verbatim>\<open>SELECT\<close> untouched.\<close>

theorem Advise_kind_conflict_witness:
  "Advise E0 mixed_batch = (Some SQL_STMT_CONFLICT_ERROR, after_create ''SELECT * FROM t2'') \<and>
   SqlArray (snd (Advise E0 mixed_batch)) ! 1 = new_sql ''SELECT * FROM t2''"
proof -
  let ?text = "''SELECT * FROM t2''"
  have k: "1 < length (SqlArray mixed_batch)"
    by (simp add: mixed_batch_def new_inspector_def)
  have before: "advise_loop E0 [0..<1] mixed_batch = (None, after_create ?text)"
    unfolding mixed_batch_def by (rule E0_after_create)
  have j: "(0::nat) < 1" by simp
  have first: "parseOneSql E0 (DbType (Db mixed_batch)) (sql_Sql (SqlArray mixed_batch ! 0))
      = Inr create_t2"
    by (simp add: E0_def mixed_batch_def new_inspector_def new_sql_def)
  have later: "parseOneSql E0 (DbType (Db mixed_batch)) (sql_Sql (SqlArray mixed_batch ! 1))
      = Inr SelectStmt"
    by (simp add: E0_def mixed_batch_def new_inspector_def new_sql_def)
  have kinds: "stmt_kind create_t2 = DDLNode \<and> stmt_kind SelectStmt = DMLNode \<or>
               stmt_kind create_t2 = DMLNode \<and> stmt_kind SelectStmt = DDLNode"
    by (simp add: create_t2_def)
  have "closeDbConn E0 (after_create ?text) = after_create ?text" by (simp add: E0_def)
  moreover have "SqlArray mixed_batch ! 1 = new_sql ?text"
    by (simp add: mixed_batch_def new_inspector_def)
  ultimately show ?thesis
    using Advise_kind_conflict [OF E0_keeps k before j first later kinds]
    by (simp add: after_create_def)
qed

end
